theory Spec2Isabelle
  imports Main "HOL-Library.Word" "HOL-Library.Multiset"
begin

unbundle bit_operations_syntax

section \<open>The MAVLink runtime emitted by mavgen\_javascript.py\<close>

text \<open>
  The generator writes a JavaScript module. Its pieces are embedded here function by
  function: the checksum \<open>mavlink.x25Crc\<close>, the header and message \<open>pack\<close>, the
  connection object \<open>MAVLink\<close> with \<open>send\<close>, \<open>pushBuffer\<close>, \<open>parsePrefix\<close>,
  \<open>parseLength\<close>, \<open>parsePayload\<close>, \<open>parseChar\<close>, \<open>parseBuffer\<close> and \<open>decode\<close>, and
  the Python side that fills the templates (\<open>mavfmt\<close>, the format string and the
  \<open>order_map\<close> of \<open>generate\<close>).

  A buffer is a list of bytes. A JavaScript number that holds an integer is an \<open>int\<close>
  or, where the code only counts, a \<open>nat\<close>.
\<close>

type_synonym byte = "8 word"

subsection \<open>JavaScript's bitwise operators\<close>

text \<open>
  \<open>&\<close>, \<open>^\<close>, \<open><<\<close> and \<open>>>\<close> convert their operands to 32-bit two's
  complement integers, work on those, and give a signed 32-bit result; the shift count
  is taken modulo 32.
\<close>

definition js_and :: "int \<Rightarrow> int \<Rightarrow> int" where
  "js_and a b = sint ((word_of_int a :: 32 word) AND word_of_int b)"

definition js_xor :: "int \<Rightarrow> int \<Rightarrow> int" where
  "js_xor a b = sint ((word_of_int a :: 32 word) XOR word_of_int b)"

definition js_shl :: "int \<Rightarrow> nat \<Rightarrow> int" where
  "js_shl a n = sint (push_bit (n mod 32) (word_of_int a :: 32 word))"

definition js_sar :: "int \<Rightarrow> nat \<Rightarrow> int" where
  "js_sar a n = sint (signed_drop_bit (n mod 32) (word_of_int a :: 32 word))"

subsection \<open>mavlink.x25Crc\<close>

text \<open>The body of the \<open>_.each\<close> callback: one byte \<open>e\<close> folded into \<open>crc\<close>.\<close>

definition crc_accumulate :: "int \<Rightarrow> byte \<Rightarrow> int" where
  "crc_accumulate crc e =
     (let tmp = js_xor (uint e) (js_and crc 0xff);
          tmp = js_and (js_xor tmp (js_shl tmp 4)) 0xff;
          crc = js_xor (js_xor (js_xor (js_sar crc 8) (js_shl tmp 8)) (js_shl tmp 3)) (js_sar tmp 4);
          crc = js_and crc 0xffff
      in crc)"

text \<open>
  The second argument is optional: \<open>None\<close> is a call without it. \<open>crc || 0xffff\<close>
  takes \<open>0xffff\<close> when \<open>crc\<close> is undefined and also when it is the number 0.
\<close>

definition x25Crc :: "byte list \<Rightarrow> int option \<Rightarrow> int" where
  "x25Crc buffer crc =
     (let crc = (case crc of None \<Rightarrow> 0xffff | Some c \<Rightarrow> if c = 0 then 0xffff else c)
      in foldl crc_accumulate crc buffer)"

text \<open>
  The checksum as section 4.1 of the specification words it: \<open>crc = seed\<close>, then the
  loop, with no special case for a seed. It is what \<open>x25Crc\<close> is compared with.
\<close>

definition crc16 :: "byte list \<Rightarrow> int \<Rightarrow> int" where
  "crc16 bytes seed = foldl crc_accumulate seed bytes"

subsection \<open>Array.prototype.slice and Buffer.prototype.slice\<close>

text \<open>
  \<open>xs.slice(b, e)\<close>: a negative index counts from the end, and both indices are
  clamped to the length. \<open>slice_from xs b\<close> is \<open>xs.slice(b)\<close>.
\<close>

definition slice_index :: "nat \<Rightarrow> int \<Rightarrow> nat" where
  "slice_index n i = (if i < 0 then nat (max (int n + i) 0) else min (nat i) n)"

definition slice :: "'a list \<Rightarrow> int \<Rightarrow> int \<Rightarrow> 'a list" where
  "slice xs b e = take (slice_index (length xs) e - slice_index (length xs) b)
                       (drop (slice_index (length xs) b) xs)"

definition slice_from :: "'a list \<Rightarrow> int \<Rightarrow> 'a list" where
  "slice_from xs b = drop (slice_index (length xs) b) xs"

subsection \<open>jspack\<close>

text \<open>
  Values as the runtime passes them to and receives them from jspack: undefined, an
  integer number, a string (its characters as bytes), a floating-point number, an
  array. A floating-point number is held as the bit pattern of its IEEE-754 encoding;
  the conversion between a number and its bit pattern is not part of this model.
\<close>

datatype jsval = Undefined | Num int | Str "byte list" | Flt nat | Arr "jsval list"

text \<open>
  A format string is kept as its parts: whether it starts with \<open><\<close> (little-endian;
  jspack takes anything else as big-endian), and its items, each an optional repeat
  count and a type letter.
\<close>

type_synonym fmt_item = "nat option \<times> char"
type_synonym format = "bool \<times> fmt_item list"

text \<open>Byte strings of a natural number, least significant byte first.\<close>

fun enc_le :: "nat \<Rightarrow> nat \<Rightarrow> byte list" where
  "enc_le 0 n = []"
| "enc_le (Suc w) n = of_nat (n mod 256) # enc_le w (n div 256)"

fun dec_le :: "byte list \<Rightarrow> nat" where
  "dec_le [] = 0"
| "dec_le (b # bs) = unat b + 256 * dec_le bs"

definition endian :: "bool \<Rightarrow> byte list \<Rightarrow> byte list" where
  "endian le bs = (if le then bs else rev bs)"

text \<open>
  Modelled from the spec: jspack.js is copied beside the generated module by
  \<open>generate\<close> and is not among the sources. Section 6 gives the encodings: \<open>char\<close>,
  \<open>int8\<close> and \<open>uint8\<close> take 1 byte, \<open>int16\<close> and \<open>uint16\<close> 2, \<open>int32\<close>,
  \<open>uint32\<close> and \<open>float\<close> 4, \<open>int64\<close>, \<open>uint64\<close> and \<open>double\<close> 8, in the byte
  order of the format; an array is its elements one after the other, and an array of
  \<open>char\<close>, \<open>int8\<close> or \<open>uint8\<close> is a raw byte string of the declared length, padded
  when the value is shorter. One value belongs to each item of the format, so that
  the unpacked list has one entry for each field, as \<open>order_map\<close> needs. Packing
  reduces an integer modulo the width. \<open>None\<close> is a failed call: for \<open>Unpack\<close> the
  failure that the \<open>try\<close> blocks of \<open>decode\<close> catch (too few bytes).
\<close>

definition lenLut :: "char \<Rightarrow> nat option" where
  "lenLut c = (if c \<in> set ''cbBs'' then Some 1
               else if c \<in> set ''hH'' then Some 2
               else if c \<in> set ''iIf'' then Some 4
               else if c \<in> set ''qQd'' then Some 8
               else None)"

definition elem_size :: "char \<Rightarrow> nat" where
  "elem_size c = (case lenLut c of None \<Rightarrow> 0 | Some w \<Rightarrow> w)"

fun pack_elem :: "bool \<Rightarrow> char \<Rightarrow> jsval \<Rightarrow> byte list option" where
  "pack_elem le c (Num n) =
     (if c \<in> set ''bBhHiIqQ''
      then Some (endian le (enc_le (elem_size c) (nat (n mod 2 ^ (8 * elem_size c)))))
      else None)"
| "pack_elem le c (Str s) = (if c = CHR ''c'' \<and> length s = 1 then Some s else None)"
| "pack_elem le c (Flt x) =
     (if c \<in> set ''fd'' then Some (endian le (enc_le (elem_size c) x)) else None)"
| "pack_elem le c Undefined = None"
| "pack_elem le c (Arr vs) = None"

definition unpack_elem :: "bool \<Rightarrow> char \<Rightarrow> byte list \<Rightarrow> jsval" where
  "unpack_elem le c bs =
     (let u = dec_le (endian le bs) in
      if c = CHR ''c'' then Str bs
      else if c \<in> set ''fd'' then Flt u
      else if c \<in> set ''bhiq'' \<and> 2 ^ (8 * elem_size c - 1) \<le> u
      then Num (int u - 2 ^ (8 * elem_size c))
      else Num (int u))"

fun pack_series :: "bool \<Rightarrow> char \<Rightarrow> jsval list \<Rightarrow> byte list option" where
  "pack_series le c [] = Some []"
| "pack_series le c (v # vs) =
     (case pack_elem le c v of
        None \<Rightarrow> None
      | Some bs \<Rightarrow> (case pack_series le c vs of None \<Rightarrow> None | Some r \<Rightarrow> Some (bs @ r)))"

fun unpack_series :: "bool \<Rightarrow> char \<Rightarrow> nat \<Rightarrow> byte list \<Rightarrow> jsval list" where
  "unpack_series le c 0 bs = []"
| "unpack_series le c (Suc k) bs =
     unpack_elem le c (take (elem_size c) bs) # unpack_series le c k (drop (elem_size c) bs)"

definition item_size :: "fmt_item \<Rightarrow> nat option" where
  "item_size it =
     (case lenLut (snd it) of
        None \<Rightarrow> None
      | Some w \<Rightarrow> Some ((case fst it of None \<Rightarrow> 1 | Some n \<Rightarrow> n) * w))"

definition pack_item :: "bool \<Rightarrow> fmt_item \<Rightarrow> jsval \<Rightarrow> byte list option" where
  "pack_item le it v =
     (case fst it of
        None \<Rightarrow> pack_elem le (snd it) v
      | Some n \<Rightarrow>
          if snd it = CHR ''s''
          then (case v of Str s \<Rightarrow> Some (take n (s @ replicate n 0)) | _ \<Rightarrow> None)
          else (case v of
                  Arr vs \<Rightarrow> if length vs = n then pack_series le (snd it) vs else None
                | _ \<Rightarrow> None))"

definition unpack_item :: "bool \<Rightarrow> fmt_item \<Rightarrow> byte list \<Rightarrow> jsval" where
  "unpack_item le it bs =
     (case fst it of
        None \<Rightarrow> unpack_elem le (snd it) bs
      | Some n \<Rightarrow>
          if snd it = CHR ''s'' then Str bs else Arr (unpack_series le (snd it) n bs))"

fun pack_items :: "bool \<Rightarrow> fmt_item list \<Rightarrow> jsval list \<Rightarrow> byte list option" where
  "pack_items le [] vs = Some []"
| "pack_items le (it # its) [] = None"
| "pack_items le (it # its) (v # vs) =
     (case pack_item le it v of
        None \<Rightarrow> None
      | Some bs \<Rightarrow> (case pack_items le its vs of None \<Rightarrow> None | Some r \<Rightarrow> Some (bs @ r)))"

fun unpack_items :: "bool \<Rightarrow> fmt_item list \<Rightarrow> byte list \<Rightarrow> jsval list option" where
  "unpack_items le [] bs = Some []"
| "unpack_items le (it # its) bs =
     (case item_size it of
        None \<Rightarrow> None
      | Some w \<Rightarrow>
          if length bs < w then None
          else (case unpack_items le its (drop w bs) of
                  None \<Rightarrow> None
                | Some r \<Rightarrow> Some (unpack_item le it (take w bs) # r)))"

definition Pack :: "format \<Rightarrow> jsval list \<Rightarrow> byte list option" where
  "Pack fmt vs = pack_items (fst fmt) (snd fmt) vs"

definition Unpack :: "format \<Rightarrow> byte list \<Rightarrow> jsval list option" where
  "Unpack fmt bs = unpack_items (fst fmt) (snd fmt) bs"

text \<open>The format strings that the runtime writes out: \<open>'BBBBBB'\<close>, \<open>'cBBBBB'\<close>,
  \<open>'BB'\<close> and \<open>'<H'\<close>.\<close>

definition fmt_BBBBBB :: format where
  "fmt_BBBBBB = (False, replicate 6 (None, CHR ''B''))"

definition fmt_cBBBBB :: format where
  "fmt_cBBBBB = (False, (None, CHR ''c'') # replicate 5 (None, CHR ''B''))"

definition fmt_BB :: format where
  "fmt_BB = (False, replicate 2 (None, CHR ''B''))"

definition fmt_H_le :: format where
  "fmt_H_le = (True, [(None, CHR ''H'')])"

text \<open>\<open>xs[i]\<close> on an array: undefined outside it.\<close>

definition js_nth :: "jsval list \<Rightarrow> nat \<Rightarrow> jsval" where
  "js_nth xs i = (if i < length xs then xs ! i else Undefined)"

subsection \<open>The generator: mavfmt, the format string and order\_map\<close>

text \<open>
  A field and a message as mavparse hands them to the generator. \<open>m_ordered_fields\<close> is
  \<open>m.ordered_fields\<close>, the message's fields in wire order; the generator reads it and does not compute it.
  \<open>crc_extra\<close> is a byte computed by mavparse.
\<close>

datatype mavtype = Float | Double | Char | Int8 | UInt8 | UInt8_mavlink_version
  | Int16 | UInt16 | Int32 | UInt32 | Int64 | UInt64

record mavfield =
  f_name :: string
  f_type :: mavtype
  array_length :: nat

record mavmsg =
  m_name :: string
  m_id :: nat
  m_fields :: "mavfield list"
  m_ordered_fields :: "mavfield list"
  m_crc_extra :: byte

definition fieldnames :: "mavmsg \<Rightarrow> string list" where
  "fieldnames m = map f_name (m_fields m)"

definition ordered_fieldnames :: "mavmsg \<Rightarrow> string list" where
  "ordered_fieldnames m = map f_name (m_ordered_fields m)"

text \<open>The dictionary \<open>map\<close> of \<open>mavfmt\<close>.\<close>

fun fmt_letter :: "mavtype \<Rightarrow> char" where
  "fmt_letter Float = CHR ''f''"
| "fmt_letter Double = CHR ''d''"
| "fmt_letter Char = CHR ''c''"
| "fmt_letter Int8 = CHR ''b''"
| "fmt_letter UInt8 = CHR ''B''"
| "fmt_letter UInt8_mavlink_version = CHR ''B''"
| "fmt_letter Int16 = CHR ''h''"
| "fmt_letter UInt16 = CHR ''H''"
| "fmt_letter Int32 = CHR ''i''"
| "fmt_letter UInt32 = CHR ''I''"
| "fmt_letter Int64 = CHR ''q''"
| "fmt_letter UInt64 = CHR ''Q''"

definition mavfmt :: "mavfield \<Rightarrow> fmt_item" where
  "mavfmt field =
     (if array_length field \<noteq> 0
      then (if f_type field \<in> set [Char, Int8, UInt8]
            then (Some (array_length field), CHR ''s'')
            else (Some (array_length field), fmt_letter (f_type field)))
      else (None, fmt_letter (f_type field)))"

text \<open>\<open>generate\<close>: \<open>m.fmtstr\<close>, from the dialect's byte order and the ordered fields.\<close>

definition fmtstr :: "bool \<Rightarrow> mavmsg \<Rightarrow> format" where
  "fmtstr little_endian m = (little_endian, map mavfmt (m_ordered_fields m))"

text \<open>Python's \<open>list.index\<close>; \<open>None\<close> is its ValueError.\<close>

fun list_index :: "'a list \<Rightarrow> 'a \<Rightarrow> nat option" where
  "list_index [] x = None"
| "list_index (y # ys) x =
     (if y = x then Some 0 else map_option Suc (list_index ys x))"

text \<open>\<open>generate\<close>: \<open>m.order_map[i] = m.ordered_fieldnames.index(m.fieldnames[i])\<close>.\<close>

definition order_map :: "mavmsg \<Rightarrow> nat list option" where
  "order_map m = those (map (list_index (ordered_fieldnames m)) (fieldnames m))"

text \<open>
  Modelled from the spec: mavparse, which orders the fields, is not among the sources.
  Section 3: wire order is the fields sorted by descending byte width of the element
  type, ties broken by declaration order. The concrete registries below use it.
\<close>

fun type_width :: "mavtype \<Rightarrow> nat" where
  "type_width Float = 4"
| "type_width Double = 8"
| "type_width Char = 1"
| "type_width Int8 = 1"
| "type_width UInt8 = 1"
| "type_width UInt8_mavlink_version = 1"
| "type_width Int16 = 2"
| "type_width UInt16 = 2"
| "type_width Int32 = 4"
| "type_width UInt32 = 4"
| "type_width Int64 = 8"
| "type_width UInt64 = 8"

definition wire_order :: "mavfield list \<Rightarrow> mavfield list" where
  "wire_order fs = sort_key (\<lambda>f. - int (type_width (f_type f))) fs"

subsection \<open>The generated classes and the table mavlink.map\<close>

text \<open>
  \<open>generate_classes\<close> writes one constructor for each message. The properties it
  sets on every instance, and the names listed in the generated \<open>pack\<close>, are the class.
\<close>

record msgclass =
  c_format :: format
  c_id :: nat
  c_order_map :: "nat list"
  c_crc_extra :: byte
  c_name :: string
  c_fieldnames :: "string list"
  c_ordered_fieldnames :: "string list"

record decoder =
  d_format :: format
  d_type :: msgclass
  d_order_map :: "nat list"
  d_crc_extra :: byte

definition upper_char :: "char \<Rightarrow> char" where
  "upper_char c = (let n = (of_char c :: nat)
                   in if 97 \<le> n \<and> n \<le> 122 then char_of (n - 32) else c)"

definition generate_class :: "bool \<Rightarrow> mavmsg \<Rightarrow> nat list \<Rightarrow> msgclass" where
  "generate_class little_endian m om =
     \<lparr> c_format = fmtstr little_endian m, c_id = m_id m, c_order_map = om,
       c_crc_extra = m_crc_extra m, c_name = map upper_char (m_name m),
       c_fieldnames = fieldnames m, c_ordered_fieldnames = ordered_fieldnames m \<rparr>"

definition generate_decoder :: "bool \<Rightarrow> mavmsg \<Rightarrow> nat list \<Rightarrow> decoder" where
  "generate_decoder little_endian m om =
     \<lparr> d_format = fmtstr little_endian m, d_type = generate_class little_endian m om,
       d_order_map = om, d_crc_extra = m_crc_extra m \<rparr>"

text \<open>
  A dialect: what the XML gives the templates. \<open>PROTOCOL_MARKER\<close> is substituted into
  \<open>mavlink.header.prototype.pack\<close>.
\<close>

record dialect =
  PROTOCOL_MARKER :: nat
  little_endian :: bool
  msgs :: "mavmsg list"

text \<open>
  The entries of the object literal \<open>mavlink.map\<close>, in the order written; \<open>None\<close>
  when \<open>index\<close> raises for some message, and nothing is generated. Where two entries
  have the same key the later one stands, so the table is read from the end.
\<close>

fun map_entries :: "bool \<Rightarrow> mavmsg list \<Rightarrow> (nat \<times> decoder) list option" where
  "map_entries le [] = Some []"
| "map_entries le (m # ms) =
     (case order_map m of
        None \<Rightarrow> None
      | Some om \<Rightarrow>
          (case map_entries le ms of
             None \<Rightarrow> None
           | Some r \<Rightarrow> Some ((m_id m, generate_decoder le m om) # r)))"

type_synonym registry = "(nat \<times> decoder) list"

definition mavlink_map :: "registry \<Rightarrow> nat \<Rightarrow> decoder option" where
  "mavlink_map reg msgId = map_of (rev reg) msgId"

subsection \<open>mavlink.header and mavlink.message\<close>

record header =
  h_msgId :: nat
  h_mlen :: nat
  h_seq :: nat
  h_srcSystem :: nat
  h_srcComponent :: nat

definition header_pack :: "nat \<Rightarrow> header \<Rightarrow> byte list option" where
  "header_pack marker h =
     Pack fmt_BBBBBB [Num (int marker), Num (int (h_mlen h)), Num (int (h_seq h)),
                      Num (int (h_srcSystem h)), Num (int (h_srcComponent h)),
                      Num (int (h_msgId h))]"

text \<open>
  A message object: its class, the properties that \<open>set\<close> assigns (one for each field
  name, in the order of \<open>fieldnames\<close>), and the properties that \<open>pack\<close> and
  \<open>decode\<close> attach, undefined (\<open>None\<close>) until then.
\<close>

record message =
  mclass :: msgclass
  props :: "(string \<times> jsval) list"
  msgbuf :: "byte list option"
  payload :: "byte list option"
  crc :: "jsval list option"
  mheader :: "header option"

text \<open>\<open>mavlink.message.prototype.set\<close>: \<open>this[e] = args[i]\<close> for each field name.\<close>

definition set_props :: "string list \<Rightarrow> jsval list \<Rightarrow> (string \<times> jsval) list" where
  "set_props names args = map (\<lambda>i. (names ! i, js_nth args i)) [0..<length names]"

text \<open>Reading \<open>this.name\<close>: the last assignment to that name, undefined if none.\<close>

definition prop_get :: "(string \<times> jsval) list \<Rightarrow> string \<Rightarrow> jsval" where
  "prop_get ps n = (case map_of (rev ps) n of None \<Rightarrow> Undefined | Some v \<Rightarrow> v)"

text \<open>\<open>new mavlink.messages.x(v1, ..., vn)\<close>.\<close>

definition new_message :: "msgclass \<Rightarrow> jsval list \<Rightarrow> message" where
  "new_message cls args =
     \<lparr> mclass = cls, props = set_props (c_fieldnames cls) args,
       msgbuf = None, payload = None, crc = None, mheader = None \<rparr>"

subsection \<open>The connection object\<close>

text \<open>
  The state that the methods read or write. The logger, the event listeners and
  \<open>startup_time\<close> take no part in parsing or packing; \<open>this.file\<close>, the transport
  that \<open>send\<close> writes to, is supplied by the caller, and what is written to it is the
  output of \<open>send\<close>.
\<close>

record MAVLink =
  seq :: nat
  buf :: "byte list"
  bufInError :: "byte list"
  srcSystem :: nat
  srcComponent :: nat
  expected_length :: nat
  protocol_marker :: nat
  total_packets_sent :: nat
  total_bytes_sent :: nat
  total_packets_received :: nat
  total_bytes_received :: nat
  total_receive_errors :: nat

text \<open>The constructor \<open>MAVLink(logger, srcSystem, srcComponent)\<close>.\<close>

definition new_MAVLink :: "nat \<Rightarrow> nat \<Rightarrow> MAVLink" where
  "new_MAVLink sysid compid =
     \<lparr> seq = 0, buf = [], bufInError = [], srcSystem = sysid, srcComponent = compid,
       expected_length = 6, protocol_marker = 254,
       total_packets_sent = 0, total_bytes_sent = 0, total_packets_received = 0,
       total_bytes_received = 0, total_receive_errors = 0 \<rparr>"

subsection \<open>pack and send\<close>

text \<open>
  \<open>mavlink.message.prototype.pack\<close>. The result is the message with the properties
  \<open>pack\<close> sets, and the frame. \<open>marker\<close> is the template's \<open>PROTOCOL_MARKER\<close>.
\<close>

definition message_pack ::
    "nat \<Rightarrow> message \<Rightarrow> MAVLink \<Rightarrow> byte \<Rightarrow> byte list \<Rightarrow> (message \<times> byte list) option" where
  "message_pack marker this mav crc_extra pl =
     (let hdr = \<lparr> h_msgId = c_id (mclass this), h_mlen = length pl, h_seq = seq mav,
                  h_srcSystem = srcSystem mav, h_srcComponent = srcComponent mav \<rparr>
      in case header_pack marker hdr of
           None \<Rightarrow> None
         | Some hb \<Rightarrow>
             (let mb = hb @ pl;
                  crc = x25Crc (slice_from mb 1) None;
                  crc = x25Crc [crc_extra] (Some crc)
              in case Pack fmt_H_le [Num crc] of
                   None \<Rightarrow> None
                 | Some cb \<Rightarrow>
                     Some (this\<lparr> payload := Some pl, mheader := Some hdr,
                                 msgbuf := Some (mb @ cb) \<rparr>, mb @ cb)))"

text \<open>
  The \<open>pack\<close> generated for each class: the field values in the order of
  \<open>ordered_fieldnames\<close>, packed with the class's format. \<open>None\<close> where jspack cannot
  pack the values.
\<close>

definition pack :: "nat \<Rightarrow> message \<Rightarrow> MAVLink \<Rightarrow> (message \<times> byte list) option" where
  "pack marker this mav =
     (case Pack (c_format (mclass this))
                (map (prop_get (props this)) (c_ordered_fieldnames (mclass this))) of
        None \<Rightarrow> None
      | Some pl \<Rightarrow> message_pack marker this mav (c_crc_extra (mclass this)) pl)"

text \<open>
  \<open>MAVLink.prototype.send\<close>: the buffer handed to \<open>this.file.write\<close>, and the
  connection afterwards.
\<close>

definition send :: "nat \<Rightarrow> MAVLink \<Rightarrow> message \<Rightarrow> (byte list \<times> MAVLink) option" where
  "send marker this mavmsg =
     (case pack marker mavmsg this of
        None \<Rightarrow> None
      | Some (m, b) \<Rightarrow>
          Some (b, this\<lparr> seq := (seq this + 1) mod 256,
                        total_packets_sent := total_packets_sent this + 1,
                        total_bytes_sent := total_bytes_sent this + length b \<rparr>))"

subsection \<open>decode\<close>

text \<open>
  Every \<open>throw\<close> of the runtime is a value of \<open>mav_error\<close>: the error of
  \<open>parsePrefix\<close> (\<open>Bad prefix\<close>), and those of \<open>decode\<close> in the order of its
  text: header unpack, \<open>Invalid MAVLink prefix\<close>, \<open>Invalid MAVLink message length\<close>
  (got, expected, msgId), \<open>Unknown MAVLink message ID\<close>, CRC unpack, \<open>invalid
  MAVLink CRC\<close> (msgId, received, calculated), payload unpack. The arguments are what
  the message text interpolates. \<open>JsTypeError\<close> stands for a property access on a
  value of the wrong kind; the values \<open>Unpack\<close> gives for \<open>'cBBBBB'\<close> never cause it.
\<close>

datatype mav_error =
    PrefixError nat
  | HeaderUnpackError
  | BadPrefixError nat
  | LengthMismatchError int int int
  | UnknownMessageError int
  | ChecksumUnpackError
  | ChecksumMismatchError int "jsval list" int
  | PayloadUnpackError
  | JsTypeError

text \<open>The six values read from the unpacked header; \<open>magic.charCodeAt(0)\<close> first.\<close>

fun header_values :: "jsval list \<Rightarrow> (nat \<times> int \<times> int \<times> int \<times> int \<times> int) option" where
  "header_values (Str s # Num mlen # Num sq # Num sysid # Num compid # Num msgId # rest) =
     (case s of [] \<Rightarrow> None | magic # _ \<Rightarrow> Some (unat magic, mlen, sq, sysid, compid, msgId))"
| "header_values vs = None"

text \<open>
  \<open>_.each(t, ...)\<close>: \<open>args[i] = t[decoder.order_map[i]]\<close> for each index of \<open>t\<close>;
  an index outside \<open>order_map\<close> or outside \<open>t\<close> reads undefined.
\<close>

definition reorder :: "nat list \<Rightarrow> jsval list \<Rightarrow> jsval list" where
  "reorder om t =
     map (\<lambda>i. if i < length om then js_nth t (om ! i) else Undefined) [0..<length t]"

text \<open>
  \<open>new decoder.type(args)\<close> passes the array as the only argument; \<open>m.set.call(m,
  args)\<close> then assigns every field again, from \<open>args\<close>.
\<close>

definition instantiate :: "msgclass \<Rightarrow> jsval list \<Rightarrow> message" where
  "instantiate cls args =
     (new_message cls [Arr args])\<lparr> props := set_props (c_fieldnames cls) args \<rparr>"

text \<open>
  \<open>MAVLink.prototype.decode\<close>. \<open>receivedChecksum\<close> is the array that \<open>Unpack\<close>
  returns; \<open>!=\<close> compares it with the number by value, so it differs unless it is the
  array of that one number.
\<close>

definition decode :: "registry \<Rightarrow> byte list \<Rightarrow> mav_error + message" where
  "decode reg mb =
     (case Unpack fmt_cBBBBB (slice mb 0 6) of
        None \<Rightarrow> Inl HeaderUnpackError
      | Some unpacked \<Rightarrow>
          (case header_values unpacked of
             None \<Rightarrow> Inl JsTypeError
           | Some (magic, mlen, sq, sysid, compid, msgId) \<Rightarrow>
               if magic \<noteq> 254 then Inl (BadPrefixError magic)
               else if mlen \<noteq> int (length mb) - 8
               then Inl (LengthMismatchError (int (length mb) - 8) mlen msgId)
               else
                 (case mavlink_map reg (nat msgId) of
                    None \<Rightarrow> Inl (UnknownMessageError msgId)
                  | Some dec \<Rightarrow>
                      (case Unpack fmt_H_le (slice_from mb (int (length mb) - 2)) of
                         None \<Rightarrow> Inl ChecksumUnpackError
                       | Some receivedChecksum \<Rightarrow>
                           (let messageChecksum =
                                  x25Crc (slice mb 1 (int (length mb) - 2)) None;
                                messageChecksum =
                                  x25Crc [d_crc_extra dec] (Some messageChecksum)
                            in if receivedChecksum \<noteq> [Num messageChecksum]
                               then Inl (ChecksumMismatchError msgId receivedChecksum
                                           messageChecksum)
                               else
                                 (case Unpack (d_format dec)
                                         (slice mb 6 (int (length mb))) of
                                    None \<Rightarrow> Inl PayloadUnpackError
                                  | Some t \<Rightarrow>
                                      Inr ((instantiate (d_type dec)
                                              (reorder (d_order_map dec) t))
                                            \<lparr> msgbuf := Some mb,
                                              payload := Some (slice_from mb 6),
                                              crc := Some receivedChecksum,
                                              mheader := Some
                                                \<lparr> h_msgId = nat msgId, h_mlen = nat mlen,
                                                  h_seq = nat sq, h_srcSystem = nat sysid,
                                                  h_srcComponent = nat compid \<rparr> \<rparr>)))))))"

subsection \<open>The stream parser\<close>

text \<open>What \<open>parseChar\<close> returns when it is not null: a decoded message, or
  \<open>mavlink.messages.bad_data\<close> with the bytes in error and the error's message.\<close>

datatype parsed = Decoded message | bad_data "byte list" mav_error

text \<open>\<open>pushBuffer\<close>; \<open>None\<close> is a call without data.\<close>

definition pushBuffer :: "MAVLink \<Rightarrow> byte list option \<Rightarrow> MAVLink" where
  "pushBuffer this d =
     (case d of
        None \<Rightarrow> this
      | Some bs \<Rightarrow> this\<lparr> buf := buf this @ bs,
                         total_bytes_received := total_bytes_received this + length bs \<rparr>)"

text \<open>
  \<open>parsePrefix\<close>, \<open>parseLength\<close> and \<open>parsePayload\<close> change the connection and may
  throw; the connection they leave is returned in both cases.
\<close>

definition parsePrefix :: "MAVLink \<Rightarrow> mav_error option \<times> MAVLink" where
  "parsePrefix this =
     (if length (buf this) \<ge> 1 \<and> buf this ! 0 \<noteq> 254
      then (Some (PrefixError (unat (buf this ! 0))),
            this\<lparr> bufInError := slice (buf this) 0 1, buf := slice_from (buf this) 1,
                  expected_length := 6 \<rparr>)
      else (None, this))"

definition parseLength :: "MAVLink \<Rightarrow> mav_error option \<times> MAVLink" where
  "parseLength this =
     (if length (buf this) \<ge> 2
      then (case Unpack fmt_BB (slice (buf this) 0 2) of
              Some [b0, Num n] \<Rightarrow> (None, this\<lparr> expected_length := nat n + 8 \<rparr>)
            | _ \<Rightarrow> (Some JsTypeError, this))
      else (None, this))"

definition parsePayload ::
    "registry \<Rightarrow> MAVLink \<Rightarrow> (mav_error + message option) \<times> MAVLink" where
  "parsePayload reg this =
     (if expected_length this \<ge> 8 \<and> length (buf this) \<ge> expected_length this
      then (let mbuf = slice (buf this) 0 (int (expected_length this));
                this1 = this\<lparr> buf := slice_from (buf this) (int (expected_length this)),
                              expected_length := 6 \<rparr>
            in case decode reg mbuf of
                 Inr m \<Rightarrow>
                   (Inr (Some m),
                    this1\<lparr> total_packets_received := total_packets_received this1 + 1 \<rparr>)
               | Inl e \<Rightarrow> (Inl e, this1\<lparr> bufInError := mbuf \<rparr>))
      else (Inr None, this))"

text \<open>The \<open>catch\<close> block of \<open>parseChar\<close>.\<close>

definition caught :: "mav_error \<Rightarrow> MAVLink \<Rightarrow> parsed option \<times> MAVLink" where
  "caught e this =
     (Some (bad_data (bufInError this) e),
      this\<lparr> total_receive_errors := total_receive_errors this + 1, bufInError := [] \<rparr>)"

definition parseChar :: "registry \<Rightarrow> MAVLink \<Rightarrow> byte list option \<Rightarrow> parsed option \<times> MAVLink" where
  "parseChar reg this c =
     (case parsePrefix (pushBuffer this c) of
        (Some e, this1) \<Rightarrow> caught e this1
      | (None, this1) \<Rightarrow>
          (case parseLength this1 of
             (Some e, this2) \<Rightarrow> caught e this2
           | (None, this2) \<Rightarrow>
               (case parsePayload reg this2 of
                  (Inl e, this3) \<Rightarrow> caught e this3
                | (Inr m, this3) \<Rightarrow> (map_option Decoded m, this3))))"

subsection \<open>Facts about slices, the header formats and one parsing step\<close>

lemma slice_from_nat [simp]: "slice_from xs (int n) = drop n xs"
  by (simp add: slice_from_def slice_index_def min_def)

lemma slice_from_1 [simp]: "slice_from xs 1 = drop 1 xs"
  using slice_from_nat [of xs 1] by simp

lemma slice_from_6 [simp]: "slice_from xs 6 = drop 6 xs"
  using slice_from_nat [of xs 6] by simp

lemma slice_0_nat [simp]: "slice xs 0 (int n) = take n xs"
  by (simp add: slice_def slice_index_def min_def)

lemma slice_0_1 [simp]: "slice xs 0 1 = take 1 xs"
  using slice_0_nat [of xs 1] by simp

lemma slice_0_2 [simp]: "slice xs 0 2 = take 2 xs"
  using slice_0_nat [of xs 2] by simp

lemma slice_0_6 [simp]: "slice xs 0 6 = take 6 xs"
  using slice_0_nat [of xs 6] by simp

lemma slice_0_uint [simp]: "slice xs 0 (uint (l::byte) + 8) = take (unat l + 8) xs"
  using slice_0_nat [of xs "unat l + 8"] by simp

lemma slice_from_uint [simp]: "slice_from xs (uint (l::byte) + 8) = drop (unat l + 8) xs"
  using slice_from_nat [of xs "unat l + 8"] by simp

lemma unpack_elem_B [simp]: "unpack_elem le (CHR ''B'') [b] = Num (uint b)"
  by (simp add: unpack_elem_def endian_def)

lemma unpack_elem_c [simp]: "unpack_elem le (CHR ''c'') bs = Str bs"
  by (simp add: unpack_elem_def)

lemma item_size_B [simp]: "item_size (None, CHR ''B'') = Some 1"
  by (simp add: item_size_def lenLut_def)

lemma item_size_c [simp]: "item_size (None, CHR ''c'') = Some 1"
  by (simp add: item_size_def lenLut_def)

lemma unpack_item_scalar [simp]: "unpack_item le (None, c) bs = unpack_elem le c bs"
  by (simp add: unpack_item_def)

lemma Unpack_BB:
  "Unpack fmt_BB (b0 # b1 # rest) = Some [Num (uint b0), Num (uint b1)]"
  by (simp add: Unpack_def fmt_BB_def numeral_2_eq_2)

lemma Unpack_cBBBBB:
  "Unpack fmt_cBBBBB (b0 # b1 # b2 # b3 # b4 # b5 # rest) =
     Some [Str [b0], Num (uint b1), Num (uint b2), Num (uint b3), Num (uint b4), Num (uint b5)]"
  by (simp add: Unpack_def fmt_cBBBBB_def eval_nat_numeral)

lemma parseLength_eq:
  "parseLength st =
     (None, if 2 \<le> length (buf st) then st\<lparr> expected_length := unat (buf st ! 1) + 8 \<rparr> else st)"
proof (cases "2 \<le> length (buf st)")
  case True
  then obtain b0 b1 rest where b: "buf st = b0 # b1 # rest"
    by (cases "buf st"; simp; cases "tl (buf st)"; simp) 
  show ?thesis 
    using True by (simp add: parseLength_def b Unpack_BB)
next
  case False
  then show ?thesis by (simp add: parseLength_def)
qed

lemma parseChar_empty:
  "buf st = [] \<Longrightarrow> parseChar reg st None = (None, st)"
  by (auto simp: parseChar_def pushBuffer_def parsePrefix_def parseLength_eq parsePayload_def)

lemma parseChar_bad_prefix:
  "buf st = b # rest \<Longrightarrow> b \<noteq> 254 \<Longrightarrow>
   parseChar reg st None =
     (Some (bad_data [b] (PrefixError (unat b))),
      st\<lparr> buf := rest, bufInError := [], expected_length := 6,
          total_receive_errors := total_receive_errors st + 1 \<rparr>)"
  by (simp add: parseChar_def pushBuffer_def parsePrefix_def caught_def)

lemma parseChar_one:
  "buf st = [254] \<Longrightarrow> parseChar reg st None = (None, st)"
  by (auto simp: parseChar_def pushBuffer_def parsePrefix_def parseLength_eq parsePayload_def)

lemma parseChar_wait:
  "buf st = 254 # l # rest \<Longrightarrow> length (buf st) < unat l + 8 \<Longrightarrow>
   parseChar reg st None = (None, st\<lparr> expected_length := unat l + 8 \<rparr>)"
  by (simp add: parseChar_def pushBuffer_def parsePrefix_def parseLength_eq parsePayload_def)

lemma parseChar_frame:
  "buf st = 254 # l # rest \<Longrightarrow> unat l + 8 \<le> length (buf st) \<Longrightarrow>
   parseChar reg st None =
     (case decode reg (take (unat l + 8) (buf st)) of
        Inr m \<Rightarrow>
          (Some (Decoded m),
           st\<lparr> buf := drop (unat l + 8) (buf st), expected_length := 6,
               total_packets_received := total_packets_received st + 1 \<rparr>)
      | Inl e \<Rightarrow>
          (Some (bad_data (take (unat l + 8) (buf st)) e),
           st\<lparr> buf := drop (unat l + 8) (buf st), bufInError := [], expected_length := 6,
               total_receive_errors := total_receive_errors st + 1 \<rparr>))"
  by (simp add: parseChar_def pushBuffer_def parsePrefix_def parseLength_eq parsePayload_def
      caught_def Let_def split: sum.splits)

lemma parseChar_push:
  "parseChar reg st (Some s) = parseChar reg (pushBuffer st (Some s)) None"
  by (simp add: parseChar_def pushBuffer_def)

lemma buf_cases:
  obtains "buf st = []"
  | b rest where "buf st = b # rest" "b \<noteq> 254"
  | "buf st = [254]"
  | l rest where "buf st = 254 # l # rest" "length (buf st) < unat l + 8"
  | l rest where "buf st = 254 # l # rest" "unat l + 8 \<le> length (buf st)"
proof (cases "buf st")
  case Nil
  then show ?thesis using that by simp
next
  case (Cons b rest)
  show ?thesis
  proof (cases "b = 254")
    case False
    then show ?thesis using that Cons by simp
  next
    case True
    show ?thesis
    proof (cases rest)
      case Nil
      then show ?thesis using that Cons True by simp
    next
      case (Cons l rest')
      then show ?thesis using that \<open>buf st = b # rest\<close> True
        by (cases "length (buf st) < unat l + 8") auto
    qed
  qed
qed

lemma parseChar_consumes:
  "parseChar reg st None = (Some m, st') \<Longrightarrow> length (buf st') < length (buf st)"
  by (cases st rule: buf_cases)
     (auto simp: parseChar_empty parseChar_bad_prefix parseChar_one parseChar_wait
        parseChar_frame split: sum.splits)

text \<open>
  The \<open>while (true)\<close> loop of \<open>parseBuffer\<close>: \<open>parseChar()\<close> without data until it
  returns null. Every call that returns a result takes at least one byte off the
  buffer, which is why the loop ends.
\<close>

function parseLoop :: "registry \<Rightarrow> MAVLink \<Rightarrow> parsed list \<times> MAVLink" where
  "parseLoop reg this =
     (case parseChar reg this None of
        (None, this1) \<Rightarrow> ([], this1)
      | (Some m, this1) \<Rightarrow>
          (case parseLoop reg this1 of (ret, this2) \<Rightarrow> (m # ret, this2)))"
  by pat_completeness auto
termination
  by (relation "measure (\<lambda>(reg, this). length (buf this))") (auto dest: parseChar_consumes [OF sym])

declare parseLoop.simps [simp del]

text \<open>\<open>parseBuffer\<close>: null (\<open>None\<close>) when the first \<open>parseChar\<close> has no result, else
  the array of all results.\<close>

definition parseBuffer :: "registry \<Rightarrow> MAVLink \<Rightarrow> byte list \<Rightarrow> parsed list option \<times> MAVLink" where
  "parseBuffer reg this s =
     (case parseChar reg this (Some s) of
        (None, this1) \<Rightarrow> (None, this1)
      | (Some m, this1) \<Rightarrow>
          (case parseLoop reg this1 of (ret, this2) \<Rightarrow> (Some (m # ret), this2)))"

text \<open>
  A caller that pushes chunk after chunk on one connection and collects what each
  \<open>parseBuffer\<close> returns, a null as no results.
\<close>

definition results :: "parsed list option \<Rightarrow> parsed list" where
  "results r = (case r of None \<Rightarrow> [] | Some ms \<Rightarrow> ms)"

fun push_chunks :: "registry \<Rightarrow> MAVLink \<Rightarrow> byte list list \<Rightarrow> parsed list \<times> MAVLink" where
  "push_chunks reg this [] = ([], this)"
| "push_chunks reg this (c # cs) =
     (case parseBuffer reg this c of
        (r, this1) \<Rightarrow>
          (case push_chunks reg this1 cs of (rs, this2) \<Rightarrow> (results r @ rs, this2)))"

text \<open>
  What the parser hands to \<open>decode\<close> is seen in its results: a decoded message
  carries the frame as \<open>msgbuf\<close>, a \<open>bad_data\<close> from a failed \<open>decode\<close> carries it as
  its data. A result is well framed when that frame is as long as its length byte says,
  plus 8, and the error is not the length error; a \<open>bad_data\<close> from \<open>parsePrefix\<close>
  carries one byte.
\<close>

fun well_framed :: "parsed \<Rightarrow> bool" where
  "well_framed (Decoded m) =
     (case msgbuf m of None \<Rightarrow> False | Some mb \<Rightarrow> length mb = unat (mb ! 1) + 8)"
| "well_framed (bad_data d (PrefixError b)) = (length d = 1)"
| "well_framed (bad_data d (LengthMismatchError a b c)) = False"
| "well_framed (bad_data d e) = (length d = unat (d ! 1) + 8)"

subsection \<open>A registry with HEARTBEAT\<close>

text \<open>
  Message 0 of MAVLink's common dialect: six fields, nine bytes on the wire, \<open>crc_extra\<close>
  50. The table is what \<open>generate\<close> writes for a little-endian dialect with this one
  message; the frame is the one a connection with system 1 and component 1 sends first,
  with all fields 0.
\<close>

definition heartbeat_fields :: "mavfield list" where
  "heartbeat_fields =
     [\<lparr> f_name = ''type'', f_type = UInt8, array_length = 0 \<rparr>,
      \<lparr> f_name = ''autopilot'', f_type = UInt8, array_length = 0 \<rparr>,
      \<lparr> f_name = ''base_mode'', f_type = UInt8, array_length = 0 \<rparr>,
      \<lparr> f_name = ''custom_mode'', f_type = UInt32, array_length = 0 \<rparr>,
      \<lparr> f_name = ''system_status'', f_type = UInt8, array_length = 0 \<rparr>,
      \<lparr> f_name = ''mavlink_version'', f_type = UInt8_mavlink_version, array_length = 0 \<rparr>]"

definition heartbeat :: mavmsg where
  "heartbeat = \<lparr> m_name = ''HEARTBEAT'', m_id = 0, m_fields = heartbeat_fields,
                 m_ordered_fields = wire_order heartbeat_fields, m_crc_extra = 50 \<rparr>"

definition heartbeat_class :: msgclass where
  "heartbeat_class = generate_class True heartbeat [1, 2, 3, 0, 4, 5]"

definition heartbeat_map :: registry where
  "heartbeat_map = [(0, generate_decoder True heartbeat [1, 2, 3, 0, 4, 5])]"

definition heartbeat_payload :: "byte list" where
  "heartbeat_payload = [0, 0, 0, 0, 0, 0, 0, 0, 0]"

definition heartbeat_frame :: "byte list" where
  "heartbeat_frame = [0xFE, 9, 0, 1, 1, 0] @ heartbeat_payload @ [0x43, 0x48]"

definition heartbeat_values :: "jsval list" where
  "heartbeat_values = [Num 0, Num 0, Num 0, Num 0, Num 0, Num 0]"

section \<open>Facts about decode\<close>

lemma unpack_items_B:
  "unpack_items le (replicate n (None, CHR ''B'')) bs =
     (if length bs < n then None else Some (map (\<lambda>b. Num (uint b)) (take n bs)))"
proof (induction n arbitrary: bs)
  case 0
  then show ?case by simp
next
  case (Suc n)
  show ?case
  proof (cases bs)
    case Nil
    then show ?thesis by simp
  next
    case (Cons b rest)
    then show ?thesis using Suc [of rest] by simp
  qed
qed

lemma Unpack_cBBBBB_eq:
  "Unpack fmt_cBBBBB bs =
     (if length bs < 6 then None
      else Some (Str [bs ! 0] # map (\<lambda>b. Num (uint b)) (take 5 (drop 1 bs))))"
proof (cases bs)
  case Nil
  then show ?thesis by (simp add: Unpack_def fmt_cBBBBB_def)
next
  case (Cons b rest)
  then show ?thesis
    by (auto simp: Unpack_def fmt_cBBBBB_def unpack_items_B)
qed

lemma take6_nth:
  "6 \<le> length xs \<Longrightarrow> take 6 xs = [xs ! 0, xs ! 1, xs ! 2, xs ! 3, xs ! 4, xs ! 5]"
  by (auto simp: list_eq_iff_nth_eq less_Suc_eq eval_nat_numeral)

lemma header_values_unpacked:
  "6 \<le> length mb \<Longrightarrow>
   (case Unpack fmt_cBBBBB (slice mb 0 6) of
      None \<Rightarrow> None | Some u \<Rightarrow> header_values u) =
     Some (unat (mb ! 0), uint (mb ! 1), uint (mb ! 2), uint (mb ! 3), uint (mb ! 4), uint (mb ! 5))"
  by (simp add: Unpack_cBBBBB_eq take6_nth)

lemma Unpack_H_le:
  "Unpack fmt_H_le [x, y] = Some [Num (int (unat x + 256 * unat y))]"
  by (simp add: Unpack_def fmt_H_le_def unpack_item_def unpack_elem_def item_size_def
      endian_def elem_size_def lenLut_def)

lemma Unpack_H_le_short:
  "length bs < 2 \<Longrightarrow> Unpack fmt_H_le bs = None"
  by (simp add: Unpack_def fmt_H_le_def item_size_def lenLut_def)

lemma drop_last_two:
  "2 \<le> length xs \<Longrightarrow> drop (length xs - 2) xs = [xs ! (length xs - 2), xs ! (length xs - 1)]"
  by (auto simp: list_eq_iff_nth_eq less_Suc_eq numeral_2_eq_2)

lemma slice_from_tail:
  "2 \<le> length xs \<Longrightarrow> slice_from xs (int (length xs) - 2) = drop (length xs - 2) xs"
  using slice_from_nat [of xs "length xs - 2"] by (simp add: of_nat_diff)

lemma slice_body:
  "3 \<le> length xs \<Longrightarrow> slice xs 1 (int (length xs) - 2) = take (length xs - 3) (drop 1 xs)"
proof -
  assume l: "3 \<le> length xs"
  then have "nat (int (length xs) - 2) = length xs - 2" by linarith
  with l show ?thesis by (simp add: slice_def slice_index_def min_def)
qed

lemma slice_payload: "slice xs 6 (int (length xs)) = drop 6 xs"
  by (simp add: slice_def slice_index_def min_def)

lemma decode_short:
  "length mb < 6 \<Longrightarrow> decode reg mb = Inl HeaderUnpackError"
  by (simp add: decode_def Unpack_cBBBBB_eq)

lemma decode_header:
  assumes "6 \<le> length mb"
  shows "decode reg mb =
    (if mb ! 0 \<noteq> 254 then Inl (BadPrefixError (unat (mb ! 0)))
     else if uint (mb ! 1) \<noteq> int (length mb) - 8
     then Inl (LengthMismatchError (int (length mb) - 8) (uint (mb ! 1)) (uint (mb ! 5)))
     else
       (case mavlink_map reg (unat (mb ! 5)) of
          None \<Rightarrow> Inl (UnknownMessageError (uint (mb ! 5)))
        | Some dec \<Rightarrow>
            (case Unpack fmt_H_le (slice_from mb (int (length mb) - 2)) of
               None \<Rightarrow> Inl ChecksumUnpackError
             | Some receivedChecksum \<Rightarrow>
                 (let messageChecksum =
                        x25Crc [d_crc_extra dec]
                          (Some (x25Crc (slice mb 1 (int (length mb) - 2)) None))
                  in if receivedChecksum \<noteq> [Num messageChecksum]
                     then Inl (ChecksumMismatchError (uint (mb ! 5)) receivedChecksum
                                 messageChecksum)
                     else
                       (case Unpack (d_format dec) (slice mb 6 (int (length mb))) of
                          None \<Rightarrow> Inl PayloadUnpackError
                        | Some t \<Rightarrow>
                            Inr ((instantiate (d_type dec) (reorder (d_order_map dec) t))
                                  \<lparr> msgbuf := Some mb,
                                    payload := Some (slice_from mb 6),
                                    crc := Some receivedChecksum,
                                    mheader := Some
                                      \<lparr> h_msgId = unat (mb ! 5), h_mlen = unat (mb ! 1),
                                        h_seq = unat (mb ! 2), h_srcSystem = unat (mb ! 3),
                                        h_srcComponent = unat (mb ! 4) \<rparr> \<rparr>))))))"
proof -
  have u: "Unpack fmt_cBBBBB (slice mb 0 6) =
      Some [Str [mb ! 0], Num (uint (mb ! 1)), Num (uint (mb ! 2)), Num (uint (mb ! 3)),
            Num (uint (mb ! 4)), Num (uint (mb ! 5))]"
    using assms by (simp add: Unpack_cBBBBB_eq take6_nth)
  have m: "(mb ! 0 \<noteq> 254) = (unat (mb ! 0) \<noteq> 254)"
    using word_unat_eq_iff [of "mb ! 0" 254] by simp
  show ?thesis
  proof (cases "uint (mb ! 1) = int (length mb) - 8")
    case True
    then have n: "nat (int (length mb) - 8) = unat (mb ! 1)"
      by (simp add: unat_eq_nat_uint)
    show ?thesis
      unfolding decode_def u using True by (simp add: m n Let_def split: option.splits)
  next
    case False
    then show ?thesis
      unfolding decode_def u by (simp add: m)
  qed
qed

section \<open>Facts about the parsing loop\<close>

lemma parseLoop_None:
  "parseChar reg st None = (None, st') \<Longrightarrow> parseLoop reg st = ([], st')"
  by (subst parseLoop.simps) simp

lemma parseLoop_Some:
  "parseChar reg st None = (Some m, st') \<Longrightarrow>
   parseLoop reg st = (m # fst (parseLoop reg st'), snd (parseLoop reg st'))"
  by (subst parseLoop.simps) (simp split: prod.splits)

lemma parseBuffer_eq:
  "parseBuffer reg st s =
     (case parseLoop reg (pushBuffer st (Some s)) of
        ([], st') \<Rightarrow> (None, st')
      | (m # ms, st') \<Rightarrow> (Some (m # ms), st'))"
proof (cases "parseChar reg (pushBuffer st (Some s)) None")
  case (Pair r st')
  show ?thesis
  proof (cases r)
    case None
    with Pair show ?thesis
      by (simp add: parseBuffer_def parseChar_push parseLoop_None)
  next
    case (Some m)
    with Pair show ?thesis
      by (simp add: parseBuffer_def parseChar_push parseLoop_Some split: prod.splits)
  qed
qed

lemma parseBuffer_results:
  "results (fst (parseBuffer reg st s)) = fst (parseLoop reg (pushBuffer st (Some s)))"
  by (simp add: parseBuffer_eq results_def split: prod.splits list.splits)

lemma parseBuffer_state:
  "snd (parseBuffer reg st s) = snd (parseLoop reg (pushBuffer st (Some s)))"
  by (simp add: parseBuffer_eq split: prod.splits list.splits)

lemma parseLoop_noise:
  "list_all (\<lambda>b. b \<noteq> 254) bs \<Longrightarrow> buf st = bs \<Longrightarrow>
   fst (parseLoop reg st) = map (\<lambda>b. bad_data [b] (PrefixError (unat b))) bs
   \<and> buf (snd (parseLoop reg st)) = []
   \<and> total_receive_errors (snd (parseLoop reg st)) = total_receive_errors st + length bs"
proof (induction bs arbitrary: st)
  case Nil
  then show ?case by (simp add: parseLoop_None [OF parseChar_empty])
next
  case (Cons b bs)
  let ?st' = "st\<lparr> buf := bs, bufInError := [], expected_length := 6,
                   total_receive_errors := total_receive_errors st + 1 \<rparr>"
  from Cons.prems have pc: "parseChar reg st None =
      (Some (bad_data [b] (PrefixError (unat b))), ?st')"
    by (simp add: parseChar_bad_prefix)
  from Cons.prems have "list_all (\<lambda>b. b \<noteq> 254) bs" "buf ?st' = bs" by simp_all
  from Cons.IH [OF this] show ?case
    by (simp add: parseLoop_Some [OF pc])
qed

lemma pushBuffer_append:
  "pushBuffer (pushBuffer st (Some a)) (Some b) = pushBuffer st (Some (a @ b))"
  by (simp add: pushBuffer_def)

lemma buf_pushBuffer [simp]: "buf (pushBuffer st (Some extra)) = buf st @ extra"
  by (simp add: pushBuffer_def)

lemma parseChar_more:
  assumes "parseChar reg st None = (Some m, st')"
  shows "parseChar reg (pushBuffer st (Some extra)) None = (Some m, pushBuffer st' (Some extra))"
proof (cases st rule: buf_cases)
  case 1
  with assms show ?thesis by (simp add: parseChar_empty)
next
  case (2 b rest)
  then have "buf (pushBuffer st (Some extra)) = b # (rest @ extra)" by simp
  from parseChar_bad_prefix [OF this \<open>b \<noteq> 254\<close>, of reg] assms
    parseChar_bad_prefix [OF 2, of reg]
  show ?thesis by (auto simp: pushBuffer_def)
next
  case 3
  with assms show ?thesis by (simp add: parseChar_one)
next
  case (4 l rest)
  with assms show ?thesis by (simp add: parseChar_wait)
next
  case (5 l rest)
  then have b: "buf (pushBuffer st (Some extra)) = 254 # l # (rest @ extra)"
    and n: "unat l + 8 \<le> length (buf (pushBuffer st (Some extra)))" by simp_all
  have t: "take (unat l + 8) (buf (pushBuffer st (Some extra))) = take (unat l + 8) (buf st)"
    using 5(2) by simp
  have d: "drop (unat l + 8) (buf (pushBuffer st (Some extra))) = drop (unat l + 8) (buf st) @ extra"
    using 5(2) by simp
  from assms show ?thesis
    unfolding parseChar_frame [OF b n] parseChar_frame [OF 5] t d
    by (auto simp: pushBuffer_def split: sum.splits)
qed

lemma parseChar_stuck_more:
  assumes "parseChar reg st None = (None, st')"
  shows "parseChar reg (pushBuffer st (Some extra)) None =
         parseChar reg (pushBuffer st' (Some extra)) None"
proof (cases st rule: buf_cases)
  case 1
  with assms show ?thesis by (simp add: parseChar_empty)
next
  case (2 b rest)
  with assms show ?thesis by (simp add: parseChar_bad_prefix)
next
  case 3
  with assms show ?thesis by (simp add: parseChar_one)
next
  case (4 l rest)
  with assms have st': "st' = st\<lparr> expected_length := unat l + 8 \<rparr>"
    by (simp add: parseChar_wait)
  have b: "buf (pushBuffer st (Some extra)) = 254 # l # (rest @ extra)" using 4 by simp
  have b': "buf (pushBuffer st' (Some extra)) = 254 # l # (rest @ extra)"
    using 4 st' by simp
  show ?thesis
  proof (cases "length (254 # l # (rest @ extra)) < unat l + 8")
    case True
    then have "length (buf (pushBuffer st (Some extra))) < unat l + 8"
      "length (buf (pushBuffer st' (Some extra))) < unat l + 8" using b b' by simp_all
    then show ?thesis
      using parseChar_wait [OF b, of reg] parseChar_wait [OF b', of reg]
      by (simp add: st' pushBuffer_def)
  next
    case False
    then have "unat l + 8 \<le> length (buf (pushBuffer st (Some extra)))"
      "unat l + 8 \<le> length (buf (pushBuffer st' (Some extra)))" using b b' by simp_all
    then show ?thesis
      using parseChar_frame [OF b, of reg] parseChar_frame [OF b', of reg]
      by (simp add: st' pushBuffer_def split: sum.splits)
  qed
next
  case (5 l rest)
  with assms show ?thesis by (simp add: parseChar_frame split: sum.splits)
qed

lemma parseLoop_cong:
  "parseChar reg a None = parseChar reg b None \<Longrightarrow> parseLoop reg a = parseLoop reg b"
  by (simp add: parseLoop.simps [of reg a] parseLoop.simps [of reg b])

lemma parseLoop_more:
  "parseLoop reg (pushBuffer st (Some extra)) =
     (fst (parseLoop reg st) @
        fst (parseLoop reg (pushBuffer (snd (parseLoop reg st)) (Some extra))),
      snd (parseLoop reg (pushBuffer (snd (parseLoop reg st)) (Some extra))))"
proof (induction reg st rule: parseLoop.induct)
  case (1 reg st)
  show ?case
  proof (cases "parseChar reg st None")
    case (Pair r st')
    show ?thesis
    proof (cases r)
      case None
      with Pair have pc: "parseChar reg st None = (None, st')" by simp
      show ?thesis
        using parseLoop_cong [OF parseChar_stuck_more [OF pc, of extra]]
        by (simp add: parseLoop_None [OF pc])
    next
      case (Some m)
      with Pair have pc: "parseChar reg st None = (Some m, st')" by simp
      from "1" [OF pc [symmetric] refl] show ?thesis
        by (simp add: parseLoop_Some [OF pc] parseLoop_Some [OF parseChar_more [OF pc]])
    qed
  qed
qed

lemma parseBuffer_two_chunks:
  "results (fst (parseBuffer reg st (a @ b))) =
     results (fst (parseBuffer reg st a)) @
     results (fst (parseBuffer reg (snd (parseBuffer reg st a)) b))
   \<and> snd (parseBuffer reg st (a @ b)) = snd (parseBuffer reg (snd (parseBuffer reg st a)) b)"
  using parseLoop_more [of reg "pushBuffer st (Some a)" b]
  by (simp add: parseBuffer_results parseBuffer_state pushBuffer_append)

lemma push_chunks_Cons:
  "push_chunks reg st (c # cs) =
     (results (fst (parseBuffer reg st c)) @
        fst (push_chunks reg (snd (parseBuffer reg st c)) cs),
      snd (push_chunks reg (snd (parseBuffer reg st c)) cs))"
  by (simp split: prod.splits)

lemma push_chunks_concat:
  "push_chunks reg st (c # cs) =
     (results (fst (parseBuffer reg st (concat (c # cs)))),
      snd (parseBuffer reg st (concat (c # cs))))"
proof (induction cs arbitrary: c st)
  case Nil
  then show ?case by (simp add: push_chunks_Cons del: push_chunks.simps(2))
next
  case (Cons c' cs)
  have "concat (c # c' # cs) = c @ concat (c' # cs)" by simp
  then show ?case
    using Cons [of "snd (parseBuffer reg st c)" c']
      parseBuffer_two_chunks [of reg st c "concat (c' # cs)"]
    by (simp only: push_chunks_Cons [of reg st c "c' # cs"] fst_conv snd_conv)
qed

lemma decode_msgbuf:
  "decode reg mb = Inr m \<Longrightarrow> msgbuf m = Some mb"
  by (auto simp: decode_def Let_def split: option.splits if_splits prod.splits)

lemma decode_framed:
  assumes "length mb = unat (mb ! 1) + 8"
  shows "case decode reg mb of Inr m \<Rightarrow> well_framed (Decoded m)
         | Inl e \<Rightarrow> well_framed (bad_data mb e)"
proof -
  from assms have l: "6 \<le> length mb" and u: "uint (mb ! 1) = int (length mb) - 8"
    by simp_all
  show ?thesis
    unfolding decode_header [OF l] using assms u
    by (simp add: Let_def split: option.splits)
qed

lemma parseChar_well_framed:
  assumes "parseChar reg st None = (Some r, st')"
  shows "well_framed r"
proof (cases st rule: buf_cases)
  case 1
  with assms show ?thesis by (simp add: parseChar_empty)
next
  case (2 b rest)
  with assms show ?thesis by (auto simp: parseChar_bad_prefix)
next
  case 3
  with assms show ?thesis by (simp add: parseChar_one)
next
  case (4 l rest)
  with assms show ?thesis by (simp add: parseChar_wait)
next
  case (5 l rest)
  let ?mb = "take (unat l + 8) (buf st)"
  from 5 have "length ?mb = unat (?mb ! 1) + 8" by simp
  from decode_framed [OF this, of reg] assms show ?thesis
    unfolding parseChar_frame [OF 5] by (auto split: sum.splits)
qed

lemma parseLoop_well_framed:
  "list_all well_framed (fst (parseLoop reg st))"
proof (induction reg st rule: parseLoop.induct)
  case (1 reg st)
  show ?case
  proof (cases "parseChar reg st None")
    case (Pair r st')
    show ?thesis
    proof (cases r)
      case None
      with Pair show ?thesis by (simp add: parseLoop_None)
    next
      case (Some m)
      with Pair have pc: "parseChar reg st None = (Some m, st')" by simp
      from "1" [OF pc [symmetric] refl] parseChar_well_framed [OF pc] show ?thesis
        by (simp add: parseLoop_Some [OF pc])
    qed
  qed
qed

lemma decode_length_error:
  "decode reg mb = Inl (LengthMismatchError a b c) \<Longrightarrow>
     6 \<le> length mb \<and> uint (mb ! 1) \<noteq> int (length mb) - 8"
proof (cases "length mb < 6")
  case True
  assume "decode reg mb = Inl (LengthMismatchError a b c)"
  with True show ?thesis by (simp add: decode_short)
next
  case False
  then have l: "6 \<le> length mb" by simp
  assume "decode reg mb = Inl (LengthMismatchError a b c)"
  then show ?thesis
    unfolding decode_header [OF l] using l
    by (simp add: Let_def split: option.splits if_splits)
qed

section \<open>The HEARTBEAT registry, evaluated\<close>

lemma word_of_int_mod_256: "(word_of_int (k mod 256) :: byte) = word_of_int k"
  by (simp add: word_of_int_eq_iff take_bit_eq_mod)

lemma pack_elem_B: "pack_elem le (CHR ''B'') (Num (int n)) = Some [of_nat n]"
proof -
  have "(word_of_nat (nat (int n mod 256)) :: byte) = word_of_int (int n mod 256)"
    by (simp add: of_nat_nat)
  then show ?thesis
    by (simp add: endian_def elem_size_def lenLut_def word_of_int_mod_256)
qed

lemma fmt_BBBBBB_eq:
  "fmt_BBBBBB = (False, [(None, CHR ''B''), (None, CHR ''B''), (None, CHR ''B''),
     (None, CHR ''B''), (None, CHR ''B''), (None, CHR ''B'')])"
  by (simp add: fmt_BBBBBB_def eval_nat_numeral)

lemma header_pack_eq:
  "header_pack marker h =
     Some [of_nat marker, of_nat (h_mlen h), of_nat (h_seq h), of_nat (h_srcSystem h),
           of_nat (h_srcComponent h), of_nat (h_msgId h)]"
  by (simp add: header_pack_def Pack_def fmt_BBBBBB_eq pack_item_def pack_elem_B
      del: pack_elem.simps)

lemma hb_order_map: "order_map heartbeat = Some [1, 2, 3, 0, 4, 5]"
  by code_simp

lemma hb_entries: "map_entries True [heartbeat] = Some heartbeat_map"
proof -
  have "m_id heartbeat = 0" by (simp add: heartbeat_def)
  then show ?thesis by (simp add: hb_order_map heartbeat_map_def)
qed

lemma hb_format:
  "fmtstr True heartbeat = (True, [(None, CHR ''I''), (None, CHR ''B''), (None, CHR ''B''),
     (None, CHR ''B''), (None, CHR ''B''), (None, CHR ''B'')])"
  by code_simp

lemma hb_fieldnames:
  "fieldnames heartbeat = [''type'', ''autopilot'', ''base_mode'', ''custom_mode'',
     ''system_status'', ''mavlink_version'']"
  by code_simp

lemma hb_ordered_fieldnames:
  "ordered_fieldnames heartbeat = [''custom_mode'', ''type'', ''autopilot'', ''base_mode'',
     ''system_status'', ''mavlink_version'']"
  by code_simp

lemma hb_props:
  "set_props (fieldnames heartbeat) heartbeat_values =
     [(''type'', Num 0), (''autopilot'', Num 0), (''base_mode'', Num 0),
      (''custom_mode'', Num 0), (''system_status'', Num 0), (''mavlink_version'', Num 0)]"
  by code_simp

lemma hb_wire_values:
  "map (prop_get (set_props (fieldnames heartbeat) heartbeat_values))
     (ordered_fieldnames heartbeat) = heartbeat_values"
  by code_simp

lemma hb_Pack: "Pack (fmtstr True heartbeat) heartbeat_values = Some heartbeat_payload"
  by code_simp

lemma hb_Unpack:
  "Unpack (fmtstr True heartbeat) (heartbeat_payload @ [0x43, 0x48]) = Some heartbeat_values"
  by code_simp

lemma hb_reorder: "reorder [1, 2, 3, 0, 4, 5] heartbeat_values = heartbeat_values"
  by code_simp

lemma hb_crc1: "x25Crc ([9, 0, 1, 1, 0] @ heartbeat_payload) None = 6104"
  by code_simp

lemma hb_crc2: "x25Crc [50] (Some 6104) = 18499"
  by code_simp

lemma hb_crc16: "crc16 [50] (crc16 ([9, 0, 1, 1, 0] @ heartbeat_payload) 0xffff) = 18499"
  by code_simp

lemma enc_le_2: "enc_le 2 n = [of_nat (n mod 256), of_nat (n div 256 mod 256)]"
proof -
  have "enc_le (Suc (Suc 0)) n = [of_nat (n mod 256), of_nat (n div 256 mod 256)]" by simp
  then show ?thesis by (simp only: numeral_2_eq_2)
qed

lemma Pack_H_18499: "Pack fmt_H_le [Num 18499] = Some [0x43, 0x48]"
  by (simp add: Pack_def fmt_H_le_def pack_item_def endian_def elem_size_def lenLut_def enc_le_2)

lemma hb_class_sel:
  "c_format heartbeat_class = fmtstr True heartbeat"
  "c_id heartbeat_class = 0"
  "c_crc_extra heartbeat_class = 50"
  "c_order_map heartbeat_class = [1, 2, 3, 0, 4, 5]"
  "c_fieldnames heartbeat_class = fieldnames heartbeat"
  "c_ordered_fieldnames heartbeat_class = ordered_fieldnames heartbeat"
  by (simp_all add: heartbeat_class_def generate_class_def heartbeat_def)

lemma hb_decoder:
  "mavlink_map heartbeat_map 0 =
     Some \<lparr> d_format = fmtstr True heartbeat, d_type = heartbeat_class,
            d_order_map = [1, 2, 3, 0, 4, 5], d_crc_extra = 50 \<rparr>"
  by (simp add: mavlink_map_def heartbeat_map_def generate_decoder_def heartbeat_class_def
      heartbeat_def)

lemma hb_pack:
  "map_option snd (pack marker (new_message heartbeat_class heartbeat_values) (new_MAVLink 1 1)) =
     Some ([of_nat marker, 9, 0, 1, 1, 0] @ heartbeat_payload @ [0x43, 0x48])"
proof -
  have crc: "x25Crc [50] (Some (x25Crc (9 # 0 # 1 # 1 # 0 # heartbeat_payload) None)) = 18499"
    using hb_crc1 hb_crc2 by simp
  have len: "length heartbeat_payload = 9" by (simp add: heartbeat_payload_def)
  show ?thesis
    by (simp add: pack_def new_message_def hb_class_sel hb_wire_values hb_Pack
        message_pack_def header_pack_eq new_MAVLink_def len crc Pack_H_18499 Let_def)
qed

lemma hb_frame_length: "length heartbeat_frame = 17"
  by (simp add: heartbeat_frame_def heartbeat_payload_def)

lemma hb_frame_nth:
  "heartbeat_frame ! 0 = 254" "heartbeat_frame ! 1 = 9" "heartbeat_frame ! 2 = 0"
  "heartbeat_frame ! 3 = 1" "heartbeat_frame ! 4 = 1" "heartbeat_frame ! 5 = 0"
  by (simp_all add: heartbeat_frame_def)

lemma hb_frame_parts:
  "slice_from heartbeat_frame (int (length heartbeat_frame) - 2) = [0x43, 0x48]"
  "slice heartbeat_frame 1 (int (length heartbeat_frame) - 2) = 9 # 0 # 1 # 1 # 0 # heartbeat_payload"
  "slice heartbeat_frame 6 (int (length heartbeat_frame)) = heartbeat_payload @ [0x43, 0x48]"
  "slice_from heartbeat_frame 6 = heartbeat_payload @ [0x43, 0x48]"
  by (simp_all add: slice_def slice_from_def slice_index_def heartbeat_frame_def
      heartbeat_payload_def)

lemma hb_decode:
  "decode heartbeat_map heartbeat_frame =
     Inr ((instantiate heartbeat_class heartbeat_values)
           \<lparr> msgbuf := Some heartbeat_frame,
             payload := Some (heartbeat_payload @ [0x43, 0x48]),
             crc := Some [Num 18499],
             mheader := Some \<lparr> h_msgId = 0, h_mlen = 9, h_seq = 0, h_srcSystem = 1,
                                h_srcComponent = 1 \<rparr> \<rparr>)"
proof -
  have l: "6 \<le> length heartbeat_frame" by (simp add: hb_frame_length)
  have crc: "x25Crc [50] (Some (x25Crc (9 # 0 # 1 # 1 # 0 # heartbeat_payload) None)) = 18499"
    using hb_crc1 hb_crc2 by simp
  have len: "int (length heartbeat_frame) - 8 = 9" by (simp add: hb_frame_length)
  show ?thesis
    unfolding decode_header [OF l] hb_frame_parts hb_frame_nth
    by (simp add: len hb_decoder Unpack_H_le crc hb_Unpack hb_reorder [unfolded One_nat_def])
qed

lemma hb_instantiate_props:
  "props (instantiate heartbeat_class heartbeat_values) =
     props (new_message heartbeat_class heartbeat_values)"
  by (simp add: instantiate_def new_message_def)

section \<open>The checksum's seed\<close>

text \<open>
  C10. For every buffer, \<open>x25Crc\<close> called with the seed 0 returns what it returns
  with no seed, which is the checksum of section 4.1 started from \<open>0xffff\<close>: the
  falsy check replaces a seed of 0, so no call starts the chain from 0. With any other
  seed \<open>s\<close>, the computation starts from \<open>s\<close>.
\<close>

theorem x25Crc_seed:
  "x25Crc b (Some 0) = x25Crc b None
   \<and> x25Crc b (Some 0) = crc16 b 0xffff
   \<and> (s \<noteq> 0 \<longrightarrow> x25Crc b (Some s) = crc16 b s)"
  by (simp add: x25Crc_def crc16_def)

theorem x25Crc_seed_witness:
  "x25Crc [1, 2] (Some 0) = x25Crc [1, 2] None
   \<and> x25Crc [1, 2] (Some 0) = crc16 [1, 2] 0xffff
   \<and> x25Crc [1, 2] (Some 7) = crc16 [1, 2] 7"
  using x25Crc_seed [of "[1, 2]" 7] by simp

section \<open>Pushing a stream in pieces\<close>

text \<open>
  C4. Pushing a byte sequence chunk by chunk on one connection, one \<open>parseBuffer\<close> call
  for each chunk, gives the same results in the same order as one \<open>parseBuffer\<close> call
  with the whole sequence, and leaves the connection in the same state. This holds for
  every byte sequence and every split of it into one or more chunks, and for all results,
  the decoded messages and the \<open>bad_data\<close> ones.
\<close>

theorem fragmentation_invariance:
  "fst (push_chunks reg st (c # cs)) = results (fst (parseBuffer reg st (concat (c # cs))))
   \<and> snd (push_chunks reg st (c # cs)) = snd (parseBuffer reg st (concat (c # cs)))"
  by (simp only: push_chunks_concat fst_conv snd_conv)

section \<open>Resynchronisation on noise\<close>

text \<open>
  C5. On a connection whose buffer is empty, \<open>parseBuffer\<close> with N bytes none of which
  is 254, the marker that \<open>parsePrefix\<close> looks for, returns N \<open>bad_data\<close> results, the
  k-th carrying exactly the k-th byte, leaves the buffer empty and adds N to
  \<open>total_receive_errors\<close>.
\<close>

theorem resync_noise:
  assumes "buf st = []" and "list_all (\<lambda>b. b \<noteq> 254) bs"
  shows "results (fst (parseBuffer reg st bs)) =
           map (\<lambda>b. bad_data [b] (PrefixError (unat b))) bs
         \<and> length (results (fst (parseBuffer reg st bs))) = length bs
         \<and> buf (snd (parseBuffer reg st bs)) = []
         \<and> total_receive_errors (snd (parseBuffer reg st bs)) =
             total_receive_errors st + length bs"
proof -
  have b: "buf (pushBuffer st (Some bs)) = bs" using assms(1) by simp
  have e: "total_receive_errors (pushBuffer st (Some bs)) = total_receive_errors st"
    by (simp add: pushBuffer_def)
  from parseLoop_noise [OF assms(2) b, of reg] show ?thesis
    by (simp add: parseBuffer_results parseBuffer_state e)
qed

theorem resync_noise_witness:
  "results (fst (parseBuffer [] (new_MAVLink 1 1) [1, 2, 3])) =
     [bad_data [1] (PrefixError 1), bad_data [2] (PrefixError 2), bad_data [3] (PrefixError 3)]
   \<and> length (results (fst (parseBuffer [] (new_MAVLink 1 1) [1, 2, 3]))) = 3
   \<and> buf (snd (parseBuffer [] (new_MAVLink 1 1) [1, 2, 3])) = []
   \<and> total_receive_errors (snd (parseBuffer [] (new_MAVLink 1 1) [1, 2, 3])) = 3"
proof -
  have 1: "buf (new_MAVLink 1 1) = []" by (simp add: new_MAVLink_def)
  have 2: "list_all (\<lambda>b. b \<noteq> 254) [1, 2, 3 :: byte]" by simp
  have 3: "total_receive_errors (new_MAVLink 1 1) = 0" by (simp add: new_MAVLink_def)
  from resync_noise [OF 1 2, of "[]"] 3 show ?thesis by simp
qed

section \<open>Frames that reach decode through the parser\<close>

text \<open>
  C9. Every frame that \<open>parseBuffer\<close> hands to \<open>decode\<close> is as long as its length
  byte plus 8, so no result of \<open>parseBuffer\<close> is a \<open>bad_data\<close> with the length error;
  \<open>decode\<close> returns that error only for a buffer of at least six bytes whose length
  byte differs from its length minus 8, which a direct call can supply.
\<close>

theorem parser_frames_well_framed:
  "list_all well_framed (results (fst (parseBuffer reg st s)))
   \<and> bad_data d (LengthMismatchError a b c) \<notin> set (results (fst (parseBuffer reg st s)))
   \<and> (decode reg mb = Inl (LengthMismatchError a b c) \<longrightarrow>
        6 \<le> length mb \<and> uint (mb ! 1) \<noteq> int (length mb) - 8)"
proof -
  have w: "list_all well_framed (results (fst (parseBuffer reg st s)))"
    by (simp only: parseBuffer_results parseLoop_well_framed)
  then have "bad_data d (LengthMismatchError a b c) \<notin> set (results (fst (parseBuffer reg st s)))"
    by (auto simp: list_all_iff)
  with w decode_length_error [of reg mb a b c] show ?thesis by blast
qed

theorem parser_frames_well_framed_witness:
  "list_all well_framed (results (fst (parseBuffer [] (new_MAVLink 1 1) [7])))
   \<and> decode [] [254, 9, 0, 1, 1, 0] = Inl (LengthMismatchError (- 2) 9 0)
   \<and> 6 \<le> length [254, 9, 0, 1, 1, 0 :: byte]
   \<and> uint ([254, 9, 0, 1, 1, 0 :: byte] ! 1) \<noteq> int (length [254, 9, 0, 1, 1, 0 :: byte]) - 8"
proof -
  have d: "decode [] [254, 9, 0, 1, 1, 0] = Inl (LengthMismatchError (- 2) 9 0)"
    by (simp add: decode_header)
  from parser_frames_well_framed [of "[]" "new_MAVLink 1 1" "[7]" "[]" "- 2" 9 0 "[254, 9, 0, 1, 1, 0]"] d
  show ?thesis by simp
qed

end
